theory Spec2Isabelle
  imports Complex_Main "HOL-Library.AList"
begin

section \<open>SpiralBot: the simulation engine of bue_flashbot_virtual.py\<close>

text \<open>
  A shallow embedding of class BotManager. Python floats are idealised as real numbers,
  so every arithmetic statement below is about exact arithmetic. The mutable object
  \<open>self\<close> is a record that each method takes and returns. The wall clock, the random
  source and the failures of the operating system are read from an explicit environment.
\<close>

subsection \<open>Data model\<close>

type_synonym symbol = string

text \<open>Exceptions that the modelled code can raise.\<close>

datatype py_error = ZeroDivisionError | UnsupportedOperation | OSError | KeyError

text \<open>
  A cell of a CSV row as handed to \<open>csv.writer\<close>: a string, a number, or the text that
  \<open>strftime\<close> makes of a clock reading.
\<close>

datatype cell = Str string | Num real | Stamp real

type_synonym row = "cell list"

text \<open>The module constants, read from environment variables when the module is loaded.\<close>

record config =
  session_id :: string
  RISK_PER_TRADE :: real
  PORTFOLIO_INITIAL :: real
  TRADE_DURATION :: int
  TRAILING_STOP_PCT :: real
  STOP_LOSS_PCT :: real
  TAKE_PROFIT_PCT :: real
  FEE_PCT :: real
  MAX_POSITIONS :: int

text \<open>The defaults that the module uses when no environment variable is set.\<close>

definition default_config :: config where
  "default_config =
     \<lparr> session_id = ''20250607_120000'',
       RISK_PER_TRADE = 5 / 100,
       PORTFOLIO_INITIAL = 1000,
       TRADE_DURATION = 300,
       TRAILING_STOP_PCT = 2 / 100,
       STOP_LOSS_PCT = 3 / 100,
       TAKE_PROFIT_PCT = 5 / 100,
       FEE_PCT = 1 / 1000,
       MAX_POSITIONS = 3 \<rparr>"

text \<open>The dictionary stored per open position by \<open>execute_trade\<close>.\<close>

record position =
  entry_price :: real
  quantity :: real
  timestamp :: real
  peak_price :: real
  side :: string
  trade_value :: real

text \<open>
  The fields of BotManager. Dictionaries whose iteration order the code depends on
  (\<open>positions\<close>, \<open>prices\<close>) are association lists in insertion order; \<open>price_history\<close>
  is only ever looked up by key and is a map. \<open>log_file\<close> is the content of LOG_FILE on
  disk, \<open>None\<close> while the file does not exist; the engine is its only writer here.
\<close>

record bot =
  prices :: "(symbol \<times> real) list"
  price_history :: "symbol \<rightharpoonup> real list"
  cash :: real
  portfolio_value :: real
  positions :: "(symbol \<times> position) list"
  state_saved :: bool
  last_activity :: real
  total_api_calls :: nat
  log_file :: "row list option"

text \<open>
  What a call reads from outside the object: the clock (\<open>datetime.now()\<close>, in seconds),
  the value drawn by \<open>random.uniform(-0.008, 0.008)\<close>, whether creating the log file
  raises, and whether opening or locking it raises at a given attempt.
\<close>

record env =
  now :: real
  noise :: real
  create_fails :: bool
  open_fails :: "nat \<Rightarrow> bool"

text \<open>\<open>BotManager.__init__\<close>; the clock reading is the time of construction.\<close>

definition init :: "config \<Rightarrow> env \<Rightarrow> row list option \<Rightarrow> bot" where
  "init cfg e disk =
     \<lparr> prices = [],
       price_history = Map.empty,
       cash = PORTFOLIO_INITIAL cfg,
       portfolio_value = PORTFOLIO_INITIAL cfg,
       positions = [],
       state_saved = False,
       last_activity = now e,
       total_api_calls = 0,
       log_file = disk \<rparr>"

subsection \<open>The event log: log_to_csv\<close>

definition header :: "string list" where
  "header = [''session_id'', ''timestamp'', ''symbol'', ''price'', ''bue'', ''delta'',
             ''signal'', ''value_estimate'', ''action'', ''pnl'', ''close_reason'', ''equity'']"

text \<open>
  Lines 245 to 248: a row of eleven cells gets the session id in front, a row of twelve
  cells has its first cell overwritten with the session id.
\<close>

definition fix_session_id :: "config \<Rightarrow> row \<Rightarrow> row" where
  "fix_session_id cfg row_data =
     (if length row_data = length header - 1 then Str (session_id cfg) # row_data
      else if length row_data = length header \<and> row_data ! 0 \<noteq> Str (session_id cfg)
           then row_data[0 := Str (session_id cfg)]
      else row_data)"

text \<open>
  The modes of \<open>open\<close> that the repository uses. A stream opened with \<open>'w'\<close> or \<open>'a'\<close> is
  write-only: reading from it raises \<open>io.UnsupportedOperation\<close>.
\<close>

datatype fmode = ModeR | ModeW | ModeA

fun readable :: "fmode \<Rightarrow> bool" where
  "readable ModeR = True"
| "readable ModeW = False"
| "readable ModeA = False"

text \<open>
  \<open>next(csv.reader(file), None)\<close> after \<open>file.seek(0)\<close>: the first row of the file, or
  \<open>None\<close> for an empty file; the read raises on a stream that is not readable.
\<close>

definition next_row :: "fmode \<Rightarrow> row list \<Rightarrow> py_error + row option" where
  "next_row m rows =
     (if \<not> readable m then Inl UnsupportedOperation
      else Inr (case rows of [] \<Rightarrow> None | r # _ \<Rightarrow> Some r))"

text \<open>
  One pass through the body of the retry loop (lines 262 to 287), up to its
  \<open>return\<close> or to the exception that the \<open>except\<close> clause catches. \<open>open(LOG_FILE, 'a')\<close>
  creates an absent file. Closing the file at the end of the \<open>with\<close> block gives the
  lock back on every path.
\<close>

definition write_attempt :: "env \<Rightarrow> nat \<Rightarrow> bot \<Rightarrow> row \<Rightarrow> (py_error + bool) \<times> bot" where
  "write_attempt e attempt s row_data =
     (if open_fails e attempt then (Inl OSError, s)
      else
        let rows = (case log_file s of None \<Rightarrow> [] | Some rs \<Rightarrow> rs);
            s1 = s\<lparr>log_file := Some rows\<rparr>
        in (case next_row ModeA rows of
              Inl err \<Rightarrow> (Inl err, s1)
            | Inr existing_header \<Rightarrow>
                if existing_header \<noteq> Some (map Str header) then (Inr False, s1)
                else (Inr True, s1\<lparr>log_file := Some (rows @ [row_data]), state_saved := True\<rparr>)))"

text \<open>\<open>for attempt in range(3)\<close>: an exception is logged and the next attempt follows.\<close>

fun retry_loop :: "env \<Rightarrow> nat list \<Rightarrow> bot \<Rightarrow> row \<Rightarrow> bool \<times> bot" where
  "retry_loop e [] s row_data = (False, s)"
| "retry_loop e (attempt # rest) s row_data =
     (case write_attempt e attempt s row_data of
        (Inr ok, s1) \<Rightarrow> (ok, s1)
      | (Inl err, s1) \<Rightarrow> retry_loop e rest s1 row_data)"

definition log_to_csv :: "config \<Rightarrow> env \<Rightarrow> bot \<Rightarrow> row \<Rightarrow> bool \<times> bot" where
  "log_to_csv cfg e s row_data0 =
     (let row_data = fix_session_id cfg row_data0 in
      case log_file s of
        None \<Rightarrow>
          if create_fails e then (False, s)
          else retry_loop e [0, 1, 2] (s\<lparr>log_file := Some [map Str header]\<rparr>) row_data
      | Some rows \<Rightarrow> retry_loop e [0, 1, 2] s row_data)"

subsection \<open>Deposits\<close>

definition deposit_funds :: "config \<Rightarrow> env \<Rightarrow> bot \<Rightarrow> real \<Rightarrow> bool \<times> bot" where
  "deposit_funds cfg e s amount =
     (if amount \<le> 0 then (False, s)
      else
        let s1 = s\<lparr>cash := cash s + amount\<rparr>;
            s2 = s1\<lparr>portfolio_value := portfolio_value s1 + amount\<rparr>;
            deposit_row =
              [Str (session_id cfg), Stamp (now e), Str ''SYSTEM'', Num 0, Num 0, Num 0,
               Str ''DEPOSIT'', Num amount, Str ''DEPOSIT'', Num 0, Str ''N/A'',
               Num (portfolio_value s2)]
        in log_to_csv cfg e s2 deposit_row)"

subsection \<open>Signal generation\<close>

text \<open>Python slices with negative bounds: \<open>xs[-n:]\<close> and \<open>xs[-a:-b]\<close>.\<close>

definition last_n :: "nat \<Rightarrow> 'a list \<Rightarrow> 'a list" where
  "last_n n xs = drop (length xs - n) xs"

definition slice_neg :: "nat \<Rightarrow> nat \<Rightarrow> 'a list \<Rightarrow> 'a list" where
  "slice_neg a b xs = take ((length xs - b) - (length xs - a)) (drop (length xs - a) xs)"

text \<open>\<open>max\<close> and \<open>min\<close> of a list; the code calls them on ten prices.\<close>

definition max_list :: "real list \<Rightarrow> real" where
  "max_list xs = fold max (tl xs) (hd xs)"

definition min_list :: "real list \<Rightarrow> real" where
  "min_list xs = fold min (tl xs) (hd xs)"

text \<open>\<open>round(x, 8)\<close>: to eight decimal places, a tie going to the even neighbour.\<close>

definition round_half_even :: "real \<Rightarrow> int" where
  "round_half_even y =
     (let f = \<lfloor>y\<rfloor>; d = y - of_int f
      in if d < 1 / 2 then f else if 1 / 2 < d then f + 1 else if even f then f else f + 1)"

definition round8 :: "real \<Rightarrow> real" where
  "round8 x = of_int (round_half_even (x * 10 ^ 8)) / 10 ^ 8"

text \<open>
  Lines 178 to 185: the rolling window. The price is appended to the history of the
  symbol, and the oldest entry is popped when the history has more than twenty.
\<close>

definition push_price :: "bot \<Rightarrow> symbol \<Rightarrow> real \<Rightarrow> bot" where
  "push_price s symb current_price =
     (let h0 = (case price_history s symb of None \<Rightarrow> [] | Some h \<Rightarrow> h);
          h1 = h0 @ [current_price];
          h2 = (if 20 < length h1 then tl h1 else h1)
      in s\<lparr>price_history := (price_history s)(symb \<mapsto> h2)\<rparr>)"

definition history :: "bot \<Rightarrow> symbol \<Rightarrow> real list" where
  "history s symb = (case price_history s symb of None \<Rightarrow> [] | Some h \<Rightarrow> h)"

definition calculate_bue_value :: "env \<Rightarrow> bot \<Rightarrow> symbol \<Rightarrow> real \<Rightarrow> real \<times> bot" where
  "calculate_bue_value e s symb current_price =
     (let s1 = push_price s symb current_price;
          h = history s1 symb
      in if length h < 5 then (current_price, s1)
         else
           let momentum_factor =
                 (if 10 \<le> length h then
                    let recent_avg = sum_list (last_n 5 h) / 5;
                        older_avg = sum_list (slice_neg 10 5 h) / 5
                    in if 0 < older_avg then (recent_avg - older_avg) / older_avg * (15 / 100)
                       else 0
                  else 0);
               volatility_factor =
                 (if 10 \<le> length h then
                    let recent_prices = last_n 10 h;
                        price_range = max_list recent_prices - min_list recent_prices
                    in if 0 < current_price then
                         min (max (price_range / current_price * (8 / 100)) (- (3 / 100))) (3 / 100)
                       else 0
                  else 0);
               random_component = noise e;
               total_adjustment = momentum_factor + volatility_factor + random_component;
               bue_value = current_price * (1 + total_adjustment)
           in (round8 bue_value, s1))"

definition generate_signal :: "real \<Rightarrow> real \<Rightarrow> string \<times> real" where
  "generate_signal current_price bue_value =
     (if current_price \<le> 0 then (''HOLD'', 0)
      else
        let delta = (bue_value - current_price) / current_price * 100
        in if 12 / 10 < delta then (''BUY'', delta)
           else if delta < - (12 / 10) then (''SELL'', delta)
           else (''HOLD'', delta))"

subsection \<open>The ledger: calculate_equity\<close>

text \<open>\<open>current_prices.get(symbol, pos["entry_price"])\<close>\<close>

definition price_or_entry :: "(symbol \<times> real) list \<Rightarrow> symbol \<Rightarrow> position \<Rightarrow> real" where
  "price_or_entry current_prices symb pos =
     (case map_of current_prices symb of None \<Rightarrow> entry_price pos | Some p \<Rightarrow> p)"

text \<open>The loop over \<open>self.positions.items()\<close>, with \<open>unrealized_pnl\<close> as accumulator.\<close>

fun unrealized_loop :: "(symbol \<times> real) list \<Rightarrow> (symbol \<times> position) list \<Rightarrow> real \<Rightarrow> real" where
  "unrealized_loop current_prices [] unrealized_pnl = unrealized_pnl"
| "unrealized_loop current_prices ((symb, pos) # rest) unrealized_pnl =
     (let current_price = price_or_entry current_prices symb pos
      in if side pos = ''BUY'' then
           let market_value = quantity pos * current_price
           in unrealized_loop current_prices rest (unrealized_pnl + (market_value - trade_value pos))
         else
           let cost = quantity pos * current_price
           in unrealized_loop current_prices rest (unrealized_pnl + (trade_value pos - cost)))"

definition calculate_equity :: "bot \<Rightarrow> (symbol \<times> real) list \<Rightarrow> real \<times> bot" where
  "calculate_equity s current_prices =
     (let unrealized_pnl = unrealized_loop current_prices (positions s) 0;
          s1 = s\<lparr>portfolio_value := cash s + unrealized_pnl\<rparr>
      in (portfolio_value s1, s1))"

subsection \<open>Opening and closing positions\<close>

definition execute_trade ::
  "config \<Rightarrow> env \<Rightarrow> bot \<Rightarrow> symbol \<Rightarrow> string \<Rightarrow> real \<Rightarrow> real \<Rightarrow> py_error + bool \<times> bot" where
  "execute_trade cfg e s symb signal price delta =
     (if signal \<notin> set [''BUY'', ''SELL''] then Inr (False, s)
      else if MAX_POSITIONS cfg \<le> int (length (positions s)) then Inr (False, s)
      else if symb \<in> set (map fst (positions s)) then Inr (False, s)
      else
        let trade_val = cash s * RISK_PER_TRADE cfg
        in if trade_val < 10 then Inr (False, s)
           else
             let fee = trade_val * FEE_PCT cfg;
                 net_trade_value = trade_val - fee
             in if price = 0 then Inl ZeroDivisionError
                else
                  let qty = net_trade_value / price;
                      pos = \<lparr> entry_price = price, quantity = qty, timestamp = now e,
                              peak_price = price, side = signal,
                              trade_value = net_trade_value \<rparr>;
                      s1 = s\<lparr>positions := AList.update symb pos (positions s)\<rparr>;
                      s2 = s1\<lparr>cash := cash s1 - trade_val\<rparr>;
                      s3 = s2\<lparr>last_activity := now e\<rparr>;
                      (equity, s4) = calculate_equity s3 [(symb, price)];
                      trade_row =
                        [Str (session_id cfg), Stamp (now e), Str symb, Num price, Num 0,
                         Num delta, Str signal, Num net_trade_value, Str ''OPEN'', Num 0,
                         Str ''N/A'', Num equity]
                  in Inr (log_to_csv cfg e s4 trade_row))"

definition close_position ::
  "config \<Rightarrow> env \<Rightarrow> bot \<Rightarrow> symbol \<Rightarrow> real \<Rightarrow> string \<Rightarrow> (real \<times> string \<times> string) \<times> bot" where
  "close_position cfg e s symb current_price reason =
     (case map_of (positions s) symb of
        None \<Rightarrow> ((0, ''NONE'', reason), s)
      | Some pos \<Rightarrow>
          let qty = quantity pos;
              sd = side pos;
              proceeds = (if sd = ''BUY'' then qty * current_price else trade_value pos);
              pnl = (if sd = ''BUY'' then proceeds - trade_value pos
                     else proceeds - qty * current_price);
              exit_fee = proceeds * FEE_PCT cfg;
              net_pnl = pnl - exit_fee;
              s1 = s\<lparr>cash := cash s + (proceeds - exit_fee)\<rparr>;
              action = ''CLOSE_'' @ sd;
              s2 = s1\<lparr>last_activity := now e\<rparr>;
              (equity, s3) = calculate_equity s2 [(symb, current_price)];
              close_row =
                [Str (session_id cfg), Stamp (now e), Str symb, Num current_price, Num 0,
                 Num 0, Str action, Num proceeds, Str action, Num net_pnl, Str reason,
                 Num equity];
              (logged, s4) = log_to_csv cfg e s3 close_row;
              s5 = s4\<lparr>positions := AList.delete symb (positions s4)\<rparr>
          in ((net_pnl, action, reason), s5))"

subsection \<open>Exit evaluation: manage_positions\<close>

text \<open>Lines 445 to 448: the peak is the highest price of a long, the lowest of a short.\<close>

definition update_peak :: "position \<Rightarrow> real \<Rightarrow> position" where
  "update_peak pos current_price =
     (if side pos = ''BUY'' then pos\<lparr>peak_price := max (peak_price pos) current_price\<rparr>
      else pos\<lparr>peak_price := min (peak_price pos) current_price\<rparr>)"

text \<open>
  Lines 456 to 476: the chain of exit conditions for one position whose peak has been
  updated. Every satisfied condition returns from \<open>manage_positions\<close>, so a later
  condition is only looked at when all earlier ones failed. The result is the reason
  handed to \<open>close_position\<close>.
\<close>

definition exit_rule :: "config \<Rightarrow> real \<Rightarrow> position \<Rightarrow> real \<Rightarrow> string option" where
  "exit_rule cfg current_time pos current_price =
     (let peak = peak_price pos; entry = entry_price pos
      in if side pos = ''BUY'' \<and> current_price \<le> peak * (1 - TRAILING_STOP_PCT cfg)
           then Some ''TRAILING_STOP''
         else if side pos = ''SELL'' \<and> peak * (1 + TRAILING_STOP_PCT cfg) \<le> current_price
           then Some ''TRAILING_STOP''
         else if side pos = ''BUY'' \<and> current_price \<le> entry * (1 - STOP_LOSS_PCT cfg)
           then Some ''STOP_LOSS''
         else if side pos = ''SELL'' \<and> entry * (1 + STOP_LOSS_PCT cfg) \<le> current_price
           then Some ''STOP_LOSS''
         else if side pos = ''BUY'' \<and> entry * (1 + TAKE_PROFIT_PCT cfg) \<le> current_price
           then Some ''TAKE_PROFIT''
         else if side pos = ''SELL'' \<and> current_price \<le> entry * (1 - TAKE_PROFIT_PCT cfg)
           then Some ''TAKE_PROFIT''
         else if of_int (TRADE_DURATION cfg) \<le> current_time - timestamp pos
           then Some ''TIMED_EXIT''
         else None)"

text \<open>
  The loop over \<open>list(self.positions.keys())\<close>. \<open>self.positions[symbol]\<close> raises KeyError
  for a key that is gone. The peak is written into the stored position before the checks.
\<close>

fun manage_loop ::
  "config \<Rightarrow> env \<Rightarrow> (symbol \<times> real) list \<Rightarrow> symbol list \<Rightarrow> bot
     \<Rightarrow> py_error + (real \<times> string \<times> string) \<times> bot" where
  "manage_loop cfg e current_prices [] s = Inr ((0, ''NONE'', ''N/A''), s)"
| "manage_loop cfg e current_prices (symb # rest) s =
     (case map_of (positions s) symb of
        None \<Rightarrow> Inl KeyError
      | Some pos0 \<Rightarrow>
          let current_price = price_or_entry current_prices symb pos0;
              pos = update_peak pos0 current_price;
              s1 = s\<lparr>positions := AList.update symb pos (positions s)\<rparr>
          in (case exit_rule cfg (now e) pos current_price of
                Some reason \<Rightarrow> Inr (close_position cfg e s1 symb current_price reason)
              | None \<Rightarrow> manage_loop cfg e current_prices rest s1))"

definition manage_positions ::
  "config \<Rightarrow> env \<Rightarrow> bot \<Rightarrow> (symbol \<times> real) list \<Rightarrow> py_error + (real \<times> string \<times> string) \<times> bot" where
  "manage_positions cfg e s current_prices =
     (if positions s = [] then Inr ((0, ''NONE'', ''N/A''), s)
      else manage_loop cfg e current_prices (map fst (positions s)) s)"

subsection \<open>One cycle of run_simulation\<close>

text \<open>Lines 545 and 546: only a signal with a delta beyond 1.5 percent reaches \<open>execute_trade\<close>.\<close>

definition trade_on_strong_signal ::
  "config \<Rightarrow> env \<Rightarrow> bot \<Rightarrow> symbol \<Rightarrow> string \<Rightarrow> real \<Rightarrow> real \<Rightarrow> py_error + bot" where
  "trade_on_strong_signal cfg e s symb signal_type price delta =
     (if signal_type \<in> set [''BUY'', ''SELL''] \<and> 15 / 10 < \<bar>delta\<bar> then
        (case execute_trade cfg e s symb signal_type price delta of
           Inl err \<Rightarrow> Inl err
         | Inr (opened, s1) \<Rightarrow> Inr s1)
      else Inr s)"

text \<open>
  Lines 551 to 562: the equity is recomputed and stored, and the scan row is logged;
  the result of \<open>log_to_csv\<close> is ignored.
\<close>

definition log_scan ::
  "config \<Rightarrow> env \<Rightarrow> bot \<Rightarrow> symbol \<Rightarrow> real \<Rightarrow> real \<Rightarrow> real \<Rightarrow> string \<Rightarrow> real
     \<Rightarrow> real \<times> string \<times> string \<Rightarrow> bot" where
  "log_scan cfg e s3 symb price bue_value delta signal_type value_estimate managed =
     (let (pnl, action, close_reason) = managed;
          (equity, s4) = calculate_equity s3 (prices s3);
          s5 = s4\<lparr>portfolio_value := equity\<rparr>;
          scan_row =
            [Str (session_id cfg), Stamp (now e), Str symb, Num price,
             Num bue_value, Num delta, Str signal_type, Num value_estimate,
             Str (if action \<noteq> ''NONE'' then action else ''SCAN''),
             Num pnl,
             Str (if close_reason \<noteq> ''N/A'' then close_reason else ''N/A''),
             Num (portfolio_value s5)]
      in snd (log_to_csv cfg e s5 scan_row))"

text \<open>Lines 535 to 562: the body of the loop over \<open>self.prices.items()\<close>.\<close>

definition process_symbol :: "config \<Rightarrow> env \<Rightarrow> bot \<Rightarrow> symbol \<Rightarrow> real \<Rightarrow> py_error + bot" where
  "process_symbol cfg e s symb price =
     (if price \<le> 0 then Inr s
      else
        let (bue_value, s1) = calculate_bue_value e s symb price;
            (signal_type, delta) = generate_signal price bue_value
        in if length (prices s1) = 0 then Inl ZeroDivisionError
           else
             let value_estimate = cash s1 / of_nat (length (prices s1)) * (1 + delta / 100)
             in case trade_on_strong_signal cfg e s1 symb signal_type price delta of
                  Inl err \<Rightarrow> Inl err
                | Inr s2 \<Rightarrow>
                    (case manage_positions cfg e s2 (prices s2) of
                       Inl err \<Rightarrow> Inl err
                     | Inr (managed, s3) \<Rightarrow>
                         Inr (log_scan cfg e s3 symb price bue_value delta signal_type
                                value_estimate managed)))"

text \<open>
  The loop itself; the environment of the \<open>i\<close>-th symbol is \<open>ev i\<close>. An exception
  leaves the loop.
\<close>

fun symbols_loop ::
  "config \<Rightarrow> (nat \<Rightarrow> env) \<Rightarrow> nat \<Rightarrow> (symbol \<times> real) list \<Rightarrow> bot \<Rightarrow> py_error + bot" where
  "symbols_loop cfg ev i [] s = Inr s"
| "symbols_loop cfg ev i ((symb, price) # rest) s =
     (case process_symbol cfg (ev i) s symb price of
        Inl err \<Rightarrow> Inl err
      | Inr s1 \<Rightarrow> symbols_loop cfg ev (Suc i) rest s1)"

text \<open>
  One iteration of \<open>while True\<close> (lines 520 to 574) for the price map that
  \<open>fetch_coingecko_data\<close> returned; an empty map skips the cycle.
\<close>

definition run_cycle ::
  "config \<Rightarrow> (nat \<Rightarrow> env) \<Rightarrow> (symbol \<times> real) list \<Rightarrow> bot \<Rightarrow> py_error + bot" where
  "run_cycle cfg ev fetched s =
     (let s1 = s\<lparr>total_api_calls := total_api_calls s + 1, prices := fetched\<rparr>
      in if prices s1 = [] then Inr s1
         else symbols_loop cfg ev 0 (prices s1) s1)"

subsection \<open>Notions and concrete inputs used in the properties\<close>

text \<open>An environment in which the operating system raises nothing.\<close>

definition calm :: env where
  "calm = \<lparr> now = 0, noise = 0, create_fails = False, open_fails = (\<lambda>_. False) \<rparr>"

text \<open>
  The unrealized profit of one open position at a price map: what one pass through the
  loop of \<open>calculate_equity\<close> adds to its accumulator.
\<close>

definition position_pnl :: "(symbol \<times> real) list \<Rightarrow> symbol \<Rightarrow> position \<Rightarrow> real" where
  "position_pnl current_prices symb pos =
     (if side pos = ''BUY'' then quantity pos * price_or_entry current_prices symb pos - trade_value pos
      else trade_value pos - quantity pos * price_or_entry current_prices symb pos)"

text \<open>A long and a short position of one unit entered at 100, and a ledger with the long.\<close>

definition long_btc :: position where
  "long_btc = \<lparr> entry_price = 100, quantity = 1, timestamp = 0, peak_price = 100,
                side = ''BUY'', trade_value = 100 \<rparr>"

definition short_eth :: position where
  "short_eth = \<lparr> entry_price = 100, quantity = 1, timestamp = 0, peak_price = 100,
                 side = ''SELL'', trade_value = 100 \<rparr>"

definition ledger_900 :: bot where
  "ledger_900 = (init default_config calm None)\<lparr>cash := 900, positions := [(''BTC'', long_btc)]\<rparr>"

text \<open>
  A sequence of calls of \<open>calculate_bue_value\<close>, each with its environment, and the
  prices that the sequence appends for one symbol, in arrival order.
\<close>

fun feed :: "bot \<Rightarrow> (env \<times> symbol \<times> real) list \<Rightarrow> bot" where
  "feed s [] = s"
| "feed s ((e, symb, price) # rest) = feed (snd (calculate_bue_value e s symb price)) rest"

definition appended :: "symbol \<Rightarrow> (env \<times> symbol \<times> real) list \<Rightarrow> real list" where
  "appended symb calls = map (\<lambda>(e, sy, price). price) (filter (\<lambda>(e, sy, price). sy = symb) calls)"

definition twenty_two_calls :: "(env \<times> symbol \<times> real) list" where
  "twenty_two_calls = map (\<lambda>p. (calm, ''BTC'', p))
     [1, 2, 3, 4, 5, 6, 7, 8, 9, 10, 11, 12, 13, 14, 15, 16, 17, 18, 19, 20, 21, 22]"

text \<open>
  What the loop of \<open>manage_positions\<close> does to one stored position: \<open>refresh\<close> is the
  position with its peak updated at the current price, \<open>due\<close> the exit reason that the
  chain of conditions finds for it, if any.
\<close>

definition refresh :: "(symbol \<times> real) list \<Rightarrow> symbol \<times> position \<Rightarrow> symbol \<times> position" where
  "refresh current_prices kp =
     (fst kp, update_peak (snd kp) (price_or_entry current_prices (fst kp) (snd kp)))"

definition due :: "config \<Rightarrow> env \<Rightarrow> (symbol \<times> real) list \<Rightarrow> symbol \<times> position \<Rightarrow> string option" where
  "due cfg e current_prices kp =
     exit_rule cfg (now e) (snd (refresh current_prices kp))
       (price_or_entry current_prices (fst kp) (snd kp))"







definition ledger_two :: bot where
  "ledger_two = (init default_config calm (Some [map Str header]))
     \<lparr>cash := 800, positions := [(''BTC'', long_btc), (''ETH'', short_eth)]\<rparr>"

text \<open>
  The states that the engine can reach: a run is a sequence of method calls on the
  object made by \<open>__init__\<close>, each with its arguments and its environment. An
  exception that leaves a method ends the run.
\<close>

datatype call =
    Deposit env real
  | Bue env symbol real
  | Log env row
  | Equity "(symbol \<times> real) list"
  | Trade env symbol string real real
  | Close env symbol real string
  | Manage env "(symbol \<times> real) list"
  | Cycle "nat \<Rightarrow> env" "(symbol \<times> real) list"

fun perform :: "config \<Rightarrow> bot \<Rightarrow> call \<Rightarrow> py_error + bot" where
  "perform cfg s (Deposit e amount) = Inr (snd (deposit_funds cfg e s amount))"
| "perform cfg s (Bue e symb price) = Inr (snd (calculate_bue_value e s symb price))"
| "perform cfg s (Log e row_data) = Inr (snd (log_to_csv cfg e s row_data))"
| "perform cfg s (Equity current_prices) = Inr (snd (calculate_equity s current_prices))"
| "perform cfg s (Trade e symb signal price delta) =
     map_sum id snd (execute_trade cfg e s symb signal price delta)"
| "perform cfg s (Close e symb price reason) = Inr (snd (close_position cfg e s symb price reason))"
| "perform cfg s (Manage e current_prices) = map_sum id snd (manage_positions cfg e s current_prices)"
| "perform cfg s (Cycle ev fetched) = run_cycle cfg ev fetched s"

fun run :: "config \<Rightarrow> bot \<Rightarrow> call list \<Rightarrow> py_error + bot" where
  "run cfg s [] = Inr s"
| "run cfg s (c # cs) = (case perform cfg s c of Inl err \<Rightarrow> Inl err | Inr s1 \<Rightarrow> run cfg s1 cs)"

text \<open>At most one open position per symbol, and no more positions than the maximum.\<close>

definition within_limits :: "config \<Rightarrow> bot \<Rightarrow> bool" where
  "within_limits cfg s \<longleftrightarrow>
     distinct (map fst (positions s)) \<and> int (length (positions s)) \<le> MAX_POSITIONS cfg"

definition two_trades :: "call list" where
  "two_trades = [Trade calm ''BTC'' ''BUY'' 100 3, Trade calm ''BTC'' ''SELL'' 100 3]"

section \<open>Properties of the event log\<close>

text \<open>
  The stream that \<open>log_to_csv\<close> reads the header from was opened with \<open>'a'\<close>, so every
  attempt ends in the exception handler and leaves the file as it was.
\<close>

lemma write_attempt_existing:
  "log_file s = Some rows \<Longrightarrow> \<exists>err. write_attempt e i s r = (Inl err, s)"
  by (simp add: write_attempt_def next_row_def)

lemma retry_loop_existing:
  "log_file s = Some rows \<Longrightarrow> retry_loop e as s r = (False, s)"
proof (induction as)
  case Nil
  then show ?case by simp
next
  case (Cons a as)
  from write_attempt_existing [OF Cons.prems] obtain err
    where "write_attempt e a s r = (Inl err, s)" by blast
  with Cons show ?case by simp
qed

lemma log_to_csv_existing:
  "log_file s = Some rows \<Longrightarrow> log_to_csv cfg e s r = (False, s)"
  by (simp add: log_to_csv_def retry_loop_existing del: retry_loop.simps)

lemma log_to_csv_absent:
  "log_file s = None \<Longrightarrow>
   log_to_csv cfg e s r =
     (False, if create_fails e then s else s\<lparr>log_file := Some [map Str header]\<rparr>)"
  by (simp add: log_to_csv_def retry_loop_existing del: retry_loop.simps)

lemma log_to_csv_cases:
  "log_to_csv cfg e s r = (False, s) \<or>
   log_to_csv cfg e s r = (False, s\<lparr>log_file := Some [map Str header]\<rparr>)"
  by (cases "log_file s") (auto simp: log_to_csv_existing log_to_csv_absent)

lemma log_to_csv_frame:
  "cash (snd (log_to_csv cfg e s r)) = cash s"
  "portfolio_value (snd (log_to_csv cfg e s r)) = portfolio_value s"
  "positions (snd (log_to_csv cfg e s r)) = positions s"
  "price_history (snd (log_to_csv cfg e s r)) = price_history s"
  "prices (snd (log_to_csv cfg e s r)) = prices s"
  using log_to_csv_cases [of cfg e s r] by auto

text \<open>
  Claim C1. The log file exists and holds exactly the expected header row; the row to
  append is a deposit record of twelve cells that starts with the session id; nothing
  raises in the operating system. \<open>log_to_csv\<close> returns \<open>False\<close> and the file still
  holds the header row alone: the record is not appended.
\<close>

theorem log_to_csv_never_appends:
  "log_to_csv default_config calm (init default_config calm (Some [map Str header]))
     [Str ''20250607_120000'', Stamp 0, Str ''SYSTEM'', Num 0, Num 0, Num 0, Str ''DEPOSIT'',
      Num 100, Str ''DEPOSIT'', Num 0, Str ''N/A'', Num 1100]
   = (False, init default_config calm (Some [map Str header]))"
  by (rule log_to_csv_existing) (simp add: init_def)

text \<open>
  Claim C7. When the log file exists and its first row is not the expected header
  (an empty file included), \<open>log_to_csv\<close> returns \<open>False\<close> and the whole state, the
  content of the file with it, is what it was: no row is appended, none is removed or
  altered.
\<close>

theorem log_to_csv_header_mismatch:
  assumes "log_file s = Some rows" and "take 1 rows \<noteq> [map Str header]"
  shows "log_to_csv cfg e s row_data = (False, s)"
  using assms(1) by (rule log_to_csv_existing)

theorem log_to_csv_header_mismatch_witness:
  "log_file (init default_config calm (Some [[Str ''oops''], [Str ''kept'']]))
     = Some [[Str ''oops''], [Str ''kept'']]
   \<and> take 1 [[Str ''oops''], [Str ''kept'']] \<noteq> [map Str header]
   \<and> log_to_csv default_config calm
         (init default_config calm (Some [[Str ''oops''], [Str ''kept'']])) [Str ''new'']
       = (False, init default_config calm (Some [[Str ''oops''], [Str ''kept'']]))"
proof -
  have h1: "log_file (init default_config calm (Some [[Str ''oops''], [Str ''kept'']]))
              = Some [[Str ''oops''], [Str ''kept'']]"
    by (simp add: init_def)
  have h2: "take 1 [[Str ''oops''], [Str ''kept'']] \<noteq> [map Str header]"
    by (simp add: header_def)
  from log_to_csv_header_mismatch [OF h1 h2] h1 h2 show ?thesis by simp
qed

section \<open>Properties of deposits\<close>

text \<open>
  Claim C10. For a positive amount, \<open>deposit_funds\<close> hands to \<open>log_to_csv\<close> a state
  whose cash and stored portfolio value are already increased by the amount, and returns
  what \<open>log_to_csv\<close> returns. Whatever that result is, \<open>False\<close> included, the cash and
  the portfolio value of the final state are the old ones plus the amount.
\<close>

theorem deposit_funds_not_atomic:
  assumes "0 < amount" and "deposit_funds cfg e s amount = (ok, s')"
  shows "cash s' = cash s + amount
       \<and> portfolio_value s' = portfolio_value s + amount
       \<and> (\<exists>deposit_row.
            (ok, s') = log_to_csv cfg e
               (s\<lparr>cash := cash s + amount, portfolio_value := portfolio_value s + amount\<rparr>)
               deposit_row)"
proof -
  let ?s2 = "s\<lparr>cash := cash s + amount, portfolio_value := portfolio_value s + amount\<rparr>"
  from assms have "\<exists>r. log_to_csv cfg e ?s2 r = (ok, s')"
    by (auto simp: deposit_funds_def Let_def)
  then obtain r where r: "(ok, s') = log_to_csv cfg e ?s2 r"
    by metis
  then have s': "s' = snd (log_to_csv cfg e ?s2 r)"
    by (metis snd_conv)
  have "cash s' = cash s + amount" "portfolio_value s' = portfolio_value s + amount"
    unfolding s' by (simp_all add: log_to_csv_frame)
  with r show ?thesis by blast
qed

theorem deposit_funds_not_atomic_witness:
  "(0::real) < 50
   \<and> deposit_funds default_config (calm\<lparr>create_fails := True\<rparr>)
        (init default_config calm None) 50
      = (False, (init default_config calm None)\<lparr>cash := 1050, portfolio_value := 1050\<rparr>)
   \<and> cash ((init default_config calm None)\<lparr>cash := 1050, portfolio_value := 1050\<rparr>)
      = cash (init default_config calm None) + 50"
proof -
  have d: "deposit_funds default_config (calm\<lparr>create_fails := True\<rparr>)
        (init default_config calm None) 50
      = (False, (init default_config calm None)\<lparr>cash := 1050, portfolio_value := 1050\<rparr>)"
    by (simp add: deposit_funds_def log_to_csv_def init_def default_config_def calm_def
        fix_session_id_def header_def)
  from deposit_funds_not_atomic [OF _ d] show ?thesis
    using d by (simp add: init_def default_config_def)
qed

section \<open>Properties of signal generation\<close>

text \<open>
  Claim C8. With delta = (bue_value - current_price) / current_price * 100 and a
  positive current price, \<open>generate_signal\<close> returns that delta, and the signal is BUY
  exactly when delta is above 1.2, SELL exactly when delta is below -1.2, HOLD exactly
  when delta lies between -1.2 and 1.2, both ends included. A current price of zero or
  less gives HOLD with delta 0.
\<close>

theorem generate_signal_thresholds:
  "(0 < current_price \<longrightarrow>
      snd (generate_signal current_price bue_value)
        = (bue_value - current_price) / current_price * 100
    \<and> (fst (generate_signal current_price bue_value) = ''BUY''
         \<longleftrightarrow> 12 / 10 < (bue_value - current_price) / current_price * 100)
    \<and> (fst (generate_signal current_price bue_value) = ''SELL''
         \<longleftrightarrow> (bue_value - current_price) / current_price * 100 < - (12 / 10))
    \<and> (fst (generate_signal current_price bue_value) = ''HOLD''
         \<longleftrightarrow> - (12 / 10) \<le> (bue_value - current_price) / current_price * 100
           \<and> (bue_value - current_price) / current_price * 100 \<le> 12 / 10))
   \<and> (current_price \<le> 0 \<longrightarrow> generate_signal current_price bue_value = (''HOLD'', 0))"
proof -
  define delta where "delta = (bue_value - current_price) / current_price * 100"
  have g: "generate_signal current_price bue_value =
        (if current_price \<le> 0 then (''HOLD'', 0)
         else if 12 / 10 < delta then (''BUY'', delta)
         else if delta < - (12 / 10) then (''SELL'', delta)
         else (''HOLD'', delta))"
    unfolding generate_signal_def delta_def Let_def by (rule refl)
  show ?thesis
    unfolding delta_def [symmetric] g by auto
qed

theorem generate_signal_thresholds_witness:
  "generate_signal 1000 1012 = (''HOLD'', 12 / 10)
   \<and> generate_signal 1000 988 = (''HOLD'', - (12 / 10))
   \<and> fst (generate_signal 1000 1013) = ''BUY''
   \<and> fst (generate_signal 1000 987) = ''SELL''
   \<and> generate_signal 0 5 = (''HOLD'', 0)"
  using generate_signal_thresholds [of 1000 1012] generate_signal_thresholds [of 1000 988]
    generate_signal_thresholds [of 1000 1013] generate_signal_thresholds [of 1000 987]
    generate_signal_thresholds [of 0 5]
  by (simp add: prod_eq_iff)

section \<open>Properties of the ledger\<close>

lemma unrealized_loop_sum:
  "unrealized_loop cp ps acc = acc + (\<Sum>(symb, pos)\<leftarrow>ps. position_pnl cp symb pos)"
  by (induction cp ps acc rule: unrealized_loop.induct) (simp_all add: position_pnl_def Let_def)

lemma calculate_equity_frame:
  "cash (snd (calculate_equity s cp)) = cash s"
  "positions (snd (calculate_equity s cp)) = positions s"
  "log_file (snd (calculate_equity s cp)) = log_file s"
  "price_history (snd (calculate_equity s cp)) = price_history s"
  "prices (snd (calculate_equity s cp)) = prices s"
  by (simp_all add: calculate_equity_def Let_def)

text \<open>
  Claim C4, as stated, fails. The ledger holds 900 in cash, one long position of one
  unit entered at 100 and a stored portfolio value of 1000. Computing the equity at a
  price of 105 returns 905 and overwrites the stored portfolio value with 905, so the
  state after the call is not the state before it.
\<close>

theorem calculate_equity_mutates_counterexample:
  "snd (calculate_equity ledger_900 [(''BTC'', 105)]) \<noteq> ledger_900
   \<and> portfolio_value ledger_900 = 1000
   \<and> portfolio_value (snd (calculate_equity ledger_900 [(''BTC'', 105)])) = 905"
proof -
  have a: "portfolio_value ledger_900 = 1000"
    by (simp add: ledger_900_def init_def default_config_def)
  have b: "portfolio_value (snd (calculate_equity ledger_900 [(''BTC'', 105)])) = 905"
    by (simp add: calculate_equity_def ledger_900_def init_def long_btc_def price_or_entry_def)
  from a b have "snd (calculate_equity ledger_900 [(''BTC'', 105)]) \<noteq> ledger_900"
    by auto
  with a b show ?thesis by simp
qed

text \<open>
  Claim C4, amended. \<open>calculate_equity\<close> returns the cash plus the sum of the unrealized
  profits of the open positions, and the state it leaves differs from the one it got in
  the stored portfolio value alone, which is set to the returned equity: cash, open
  positions and every other field are unchanged.
\<close>

theorem calculate_equity_effect:
  "calculate_equity s current_prices =
     (cash s + (\<Sum>(symb, pos)\<leftarrow>positions s. position_pnl current_prices symb pos),
      s\<lparr>portfolio_value :=
           cash s + (\<Sum>(symb, pos)\<leftarrow>positions s. position_pnl current_prices symb pos)\<rparr>)"
  by (simp add: calculate_equity_def Let_def unrealized_loop_sum)

section \<open>Properties of position entry\<close>

text \<open>
  Claim C5. An entry is attempted through the guarded call of \<open>execute_trade\<close> in
  \<open>run_simulation\<close>. When the signal is neither BUY nor SELL (HOLD), or the number of open
  positions has reached the maximum, or the symbol already has a position, or the absolute
  delta is at most 1.5, or the trade notional cash * RISK_PER_TRADE is below 10, the call
  raises nothing and returns the state it was given: cash, positions and every other
  field unchanged. For the four conditions that \<open>execute_trade\<close> checks itself, it
  returns \<open>False\<close> with that same state.
\<close>

theorem rejected_entry_no_change:
  "(signal \<notin> {''BUY'', ''SELL''}
      \<or> MAX_POSITIONS cfg \<le> int (length (positions s))
      \<or> symb \<in> fst ` set (positions s)
      \<or> \<bar>delta\<bar> \<le> 15 / 10
      \<or> cash s * RISK_PER_TRADE cfg < 10
    \<longrightarrow> trade_on_strong_signal cfg e s symb signal price delta = Inr s)
   \<and> (signal \<notin> {''BUY'', ''SELL''}
      \<or> MAX_POSITIONS cfg \<le> int (length (positions s))
      \<or> symb \<in> fst ` set (positions s)
      \<or> cash s * RISK_PER_TRADE cfg < 10
    \<longrightarrow> execute_trade cfg e s symb signal price delta = Inr (False, s))"
  by (auto simp: trade_on_strong_signal_def execute_trade_def Let_def)

theorem rejected_entry_no_change_witness:
  "trade_on_strong_signal default_config calm ledger_900 ''ETH'' ''HOLD'' 100 3 = Inr ledger_900
   \<and> execute_trade default_config calm ledger_900 ''ETH'' ''HOLD'' 100 3 = Inr (False, ledger_900)
   \<and> trade_on_strong_signal default_config calm ledger_900 ''BTC'' ''BUY'' 100 3 = Inr ledger_900
   \<and> execute_trade default_config calm ledger_900 ''BTC'' ''BUY'' 100 3 = Inr (False, ledger_900)
   \<and> trade_on_strong_signal default_config calm ledger_900 ''ETH'' ''BUY'' 100 (15 / 10)
       = Inr ledger_900
   \<and> trade_on_strong_signal default_config calm (ledger_900\<lparr>cash := 199\<rparr>) ''ETH'' ''BUY'' 100 3
       = Inr (ledger_900\<lparr>cash := 199\<rparr>)
   \<and> execute_trade default_config calm (ledger_900\<lparr>cash := 199\<rparr>) ''ETH'' ''BUY'' 100 3
       = Inr (False, ledger_900\<lparr>cash := 199\<rparr>)
   \<and> trade_on_strong_signal (default_config\<lparr>MAX_POSITIONS := 1\<rparr>) calm ledger_900
         ''ETH'' ''BUY'' 100 3
       = Inr ledger_900
   \<and> execute_trade (default_config\<lparr>MAX_POSITIONS := 1\<rparr>) calm ledger_900 ''ETH'' ''BUY'' 100 3
       = Inr (False, ledger_900)"
proof -
  have 1: "''HOLD'' \<notin> {''BUY'', ''SELL''}" by simp
  have 2: "''BTC'' \<in> fst ` set (positions ledger_900)" by (simp add: ledger_900_def)
  have 3: "\<bar>15 / 10 :: real\<bar> \<le> 15 / 10" by simp
  have 4: "cash (ledger_900\<lparr>cash := 199\<rparr>) * RISK_PER_TRADE default_config < 10"
    by (simp add: default_config_def)
  have 5: "MAX_POSITIONS (default_config\<lparr>MAX_POSITIONS := 1\<rparr>) \<le> int (length (positions ledger_900))"
    by (simp add: ledger_900_def)
  show ?thesis
    using rejected_entry_no_change [where signal = "''HOLD''" and cfg = default_config
          and s = ledger_900 and symb = "''ETH''" and delta = 3 and e = calm and price = 100]
      rejected_entry_no_change [where signal = "''BUY''" and cfg = default_config
          and s = ledger_900 and symb = "''BTC''" and delta = 3 and e = calm and price = 100]
      rejected_entry_no_change [where signal = "''BUY''" and cfg = default_config
          and s = ledger_900 and symb = "''ETH''" and delta = "15 / 10" and e = calm
          and price = 100]
      rejected_entry_no_change [where signal = "''BUY''" and cfg = default_config
          and s = "ledger_900\<lparr>cash := 199\<rparr>" and symb = "''ETH''" and delta = 3 and e = calm
          and price = 100]
      rejected_entry_no_change [where signal = "''BUY''"
          and cfg = "default_config\<lparr>MAX_POSITIONS := 1\<rparr>"
          and s = ledger_900 and symb = "''ETH''" and delta = 3 and e = calm and price = 100]
      1 2 3 4 5
    by simp
qed

section \<open>Properties of closing a position\<close>

lemma close_position_open:
  assumes "map_of (positions s) symb = Some pos"
  shows "fst (close_position cfg e s symb current_price reason) =
           ((if side pos = ''BUY'' then quantity pos * current_price - trade_value pos
             else trade_value pos - quantity pos * current_price)
            - (if side pos = ''BUY'' then quantity pos * current_price else trade_value pos)
              * FEE_PCT cfg,
            ''CLOSE_'' @ side pos, reason)"
    and "cash (snd (close_position cfg e s symb current_price reason)) =
           cash s + ((if side pos = ''BUY'' then quantity pos * current_price else trade_value pos)
                     - (if side pos = ''BUY'' then quantity pos * current_price
                        else trade_value pos) * FEE_PCT cfg)"
    and "positions (snd (close_position cfg e s symb current_price reason)) =
           AList.delete symb (positions s)"
  using assms
  by (simp_all add: close_position_def Let_def split_beta log_to_csv_frame calculate_equity_frame)

text \<open>
  Claim C2. The ledger holds 800 in cash, a long BTC position and a short ETH position of
  one unit with a committed value of 100. The short is closed at a price of 50 with a
  fee rate of 0.001. As the claim says, pnl is 100 - 50, the exit fee is 100 * 0.001, the
  returned net_pnl is their difference, the ETH position is removed and the BTC position
  stays. The cash, however, is credited with 100 - 0.1 and becomes 899.9: the cost of 50
  that was computed for the pnl is not applied to the credit, which the claim puts at
  100 - 50 - 0.1.
\<close>

theorem close_position_short_ignores_cost:
  "fst (close_position default_config calm ledger_two ''ETH'' 50 ''TAKE_PROFIT'')
     = (100 - 1 * 50 - 100 * (1 / 1000), ''CLOSE_SELL'', ''TAKE_PROFIT'')
   \<and> positions (snd (close_position default_config calm ledger_two ''ETH'' 50 ''TAKE_PROFIT''))
     = [(''BTC'', long_btc)]
   \<and> cash ledger_two = 800
   \<and> cash (snd (close_position default_config calm ledger_two ''ETH'' 50 ''TAKE_PROFIT''))
     = 800 + (100 - 100 * (1 / 1000))
   \<and> cash (snd (close_position default_config calm ledger_two ''ETH'' 50 ''TAKE_PROFIT''))
     \<noteq> 800 + (100 - 1 * 50 - 100 * (1 / 1000))"
proof -
  have m: "map_of (positions ledger_two) ''ETH'' = Some short_eth"
    by (simp add: ledger_two_def)
  have c: "cash ledger_two = 800"
    by (simp add: ledger_two_def)
  have p: "AList.delete ''ETH'' (positions ledger_two) = [(''BTC'', long_btc)]"
    by (simp add: ledger_two_def)
  from close_position_open(1) [OF m, of default_config calm 50 "''TAKE_PROFIT''"]
    close_position_open(2) [OF m, of default_config calm 50 "''TAKE_PROFIT''"]
    close_position_open(3) [OF m, of default_config calm 50 "''TAKE_PROFIT''"]
    c p
  show ?thesis
    by (simp add: short_eth_def default_config_def)
qed

section \<open>Properties of the price history\<close>

lemma calculate_bue_value_state:
  "snd (calculate_bue_value e s symb price) = push_price s symb price"
  by (simp add: calculate_bue_value_def Let_def)

lemma window_step:
  assumes "length h \<le> 20"
  shows "(if 20 < length (h @ [p]) then tl (h @ [p]) else h @ [p]) = last_n 20 (h @ [p])"
proof (cases "length h = 20")
  case True
  then have "h \<noteq> []" by auto
  then have "tl (h @ [p]) = drop 1 (h @ [p])" by (cases h) simp_all
  with True show ?thesis by (simp add: last_n_def)
next
  case False
  with assms show ?thesis by (simp add: last_n_def)
qed

lemma history_push_price_same:
  assumes "length (history s symb) \<le> 20"
  shows "history (push_price s symb p) symb = last_n 20 (history s symb @ [p])"
proof -
  have "history (push_price s symb p) symb =
     (if 20 < length (history s symb @ [p]) then tl (history s symb @ [p])
      else history s symb @ [p])"
    by (simp add: push_price_def history_def Let_def)
  with window_step [OF assms, of p] show ?thesis by simp
qed

lemma history_push_price_other:
  "sy \<noteq> symb \<Longrightarrow> history (push_price s symb p) sy = history s sy"
  by (simp add: push_price_def history_def Let_def)

lemma last_n_last_n_append:
  "last_n n (last_n n xs @ ys) = last_n n (xs @ ys)"
  by (cases "length xs \<le> n") (simp_all add: last_n_def add.commute)

lemma length_last_n: "length (last_n n xs) \<le> n"
  by (simp add: last_n_def)

lemma history_feed:
  "length (history s symb) \<le> 20 \<Longrightarrow>
   history (feed s calls) symb = last_n 20 (history s symb @ appended symb calls)"
proof (induction calls arbitrary: s)
  case Nil
  then show ?case by (simp add: appended_def last_n_def)
next
  case (Cons c calls)
  obtain e sy p where c: "c = (e, sy, p)" by (cases c)
  let ?s = "push_price s sy p"
  show ?case
  proof (cases "sy = symb")
    case True
    have h: "history ?s symb = last_n 20 (history s symb @ [p])"
      using Cons.prems True by (simp add: history_push_price_same)
    then have "length (history ?s symb) \<le> 20"
      by (simp add: length_last_n)
    from Cons.IH [OF this] have
      "history (feed ?s calls) symb = last_n 20 (last_n 20 (history s symb @ [p]) @ appended symb calls)"
      by (simp only: h)
    then show ?thesis
      using True by (simp add: c calculate_bue_value_state last_n_last_n_append appended_def)
  next
    case False
    then have h: "history ?s symb = history s symb"
      by (simp add: history_push_price_other)
    with Cons.prems have "length (history ?s symb) \<le> 20" by simp
    from Cons.IH [OF this] show ?thesis
      using False by (simp add: c calculate_bue_value_state h appended_def)
  qed
qed

text \<open>
  Claim C9. Start from a state in which the history of a symbol has at most twenty
  entries (the initial state has none). After any sequence of calls of
  \<open>calculate_bue_value\<close>, for any symbols and in any interleaving, the history of that
  symbol is the last twenty entries of the old history followed by the prices appended
  for the symbol, in arrival order (all of them when there are fewer than twenty), and
  so never has more than twenty entries: the oldest entry leaves first.
\<close>

theorem price_history_window:
  assumes "length (history s symb) \<le> 20"
  shows "history (feed s calls) symb = last_n 20 (history s symb @ appended symb calls)
       \<and> length (history (feed s calls) symb) \<le> 20"
  using history_feed [OF assms, of calls] by (simp add: length_last_n)

theorem price_history_window_witness:
  "length (history (init default_config calm None) ''BTC'') \<le> 20
   \<and> history (feed (init default_config calm None) twenty_two_calls) ''BTC''
       = [3, 4, 5, 6, 7, 8, 9, 10, 11, 12, 13, 14, 15, 16, 17, 18, 19, 20, 21, 22]"
proof -
  have h: "length (history (init default_config calm None) ''BTC'') \<le> 20"
    by (simp add: history_def init_def)
  have "history (feed (init default_config calm None) twenty_two_calls) ''BTC''
      = last_n 20 (history (init default_config calm None) ''BTC''
                   @ appended ''BTC'' twenty_two_calls)"
    using price_history_window [OF h, of twenty_two_calls] by (rule conjunct1)
  also have "\<dots> = [3, 4, 5, 6, 7, 8, 9, 10, 11, 12, 13, 14, 15, 16, 17, 18, 19, 20, 21, 22]"
    by (simp add: appended_def last_n_def history_def init_def twenty_two_calls_def)
  finally have "history (feed (init default_config calm None) twenty_two_calls) ''BTC''
      = [3, 4, 5, 6, 7, 8, 9, 10, 11, 12, 13, 14, 15, 16, 17, 18, 19, 20, 21, 22]" .
  with h show ?thesis by (rule conjI)
qed

section \<open>Properties of exit evaluation\<close>





lemma map_of_append_fresh:
  "k \<notin> fst ` set xs \<Longrightarrow> map_of (xs @ (k, v) # ys) k = Some v"
  by (induction xs) auto

lemma update_append_fresh:
  "k \<notin> fst ` set xs \<Longrightarrow> AList.update k v' (xs @ (k, v) # ys) = xs @ (k, v') # ys"
  by (induction xs) auto

lemma fst_refresh [simp]: "fst (refresh cp kp) = fst kp"
  by (simp add: refresh_def)

lemma manage_loop_scan:
  assumes "distinct (map fst (seen @ todo))" and "positions s = seen @ todo"
  shows "manage_loop cfg e cp (map fst todo) s =
    (case dropWhile (\<lambda>kp. due cfg e cp kp = None) todo of
       [] \<Rightarrow> Inr ((0, ''NONE'', ''N/A''), s\<lparr>positions := seen @ map (refresh cp) todo\<rparr>)
     | kp # rest \<Rightarrow>
         Inr (close_position cfg e
                (s\<lparr>positions := seen
                      @ map (refresh cp) (takeWhile (\<lambda>kp. due cfg e cp kp = None) todo)
                      @ refresh cp kp # rest\<rparr>)
                (fst kp) (price_or_entry cp (fst kp) (snd kp)) (the (due cfg e cp kp))))"
  using assms
proof (induction todo arbitrary: seen s)
  case Nil
  then show ?case by simp
next
  case (Cons kp todo)
  obtain k p where kp: "kp = (k, p)" by (cases kp)
  from Cons.prems(1) have fresh: "k \<notin> fst ` set seen"
    by (auto simp: kp)
  have look: "map_of (positions s) k = Some p"
    unfolding Cons.prems(2) kp by (rule map_of_append_fresh [OF fresh])
  let ?price = "price_or_entry cp k p"
  let ?s1 = "s\<lparr>positions := seen @ refresh cp kp # todo\<rparr>"
  have upd: "AList.update k (update_peak p ?price) (positions s) = seen @ refresh cp kp # todo"
    unfolding Cons.prems(2) kp by (simp add: update_append_fresh [OF fresh] refresh_def)
  show ?case
  proof (cases "due cfg e cp kp")
    case None
    have d: "distinct (map fst ((seen @ [refresh cp kp]) @ todo))"
      using Cons.prems(1) by simp
    have p: "positions ?s1 = (seen @ [refresh cp kp]) @ todo"
      by simp
    have step: "manage_loop cfg e cp (map fst (kp # todo)) s = manage_loop cfg e cp (map fst todo) ?s1"
      using look upd None by (simp add: kp due_def refresh_def Let_def)
    show ?thesis
    proof (cases "dropWhile (\<lambda>kp. due cfg e cp kp = None) todo")
      case Nil
      show ?thesis
        unfolding step Cons.IH [OF d p] by (simp add: Nil None)
    next
      case hit: (Cons kp' rest)
      show ?thesis
        unfolding step Cons.IH [OF d p] by (simp add: hit None)
    qed
  next
    case (Some reason)
    have "manage_loop cfg e cp (map fst (kp # todo)) s =
        Inr (close_position cfg e ?s1 k ?price reason)"
      using look upd Some by (simp add: kp due_def refresh_def Let_def)
    then show ?thesis
      using Some by (simp add: kp)
  qed
qed




lemma manage_positions_scan:
  assumes "distinct (map fst (positions s))"
  shows "manage_positions cfg e s cp =
    (case dropWhile (\<lambda>kp. due cfg e cp kp = None) (positions s) of
       [] \<Rightarrow> Inr ((0, ''NONE'', ''N/A''), s\<lparr>positions := map (refresh cp) (positions s)\<rparr>)
     | kp # rest \<Rightarrow>
         Inr (close_position cfg e
                (s\<lparr>positions :=
                      map (refresh cp) (takeWhile (\<lambda>kp. due cfg e cp kp = None) (positions s))
                      @ refresh cp kp # rest\<rparr>)
                (fst kp) (price_or_entry cp (fst kp) (snd kp)) (the (due cfg e cp kp))))"
proof (cases "positions s = []")
  case True
  then have "s\<lparr>positions := []\<rparr> = s" by (cases s) simp
  with True show ?thesis by (simp add: manage_positions_def)
next
  case False
  have "manage_positions cfg e s cp = manage_loop cfg e cp (map fst (positions s)) s"
    using False by (simp add: manage_positions_def)
  also have "\<dots> = (case dropWhile (\<lambda>kp. due cfg e cp kp = None) (positions s) of
       [] \<Rightarrow> Inr ((0, ''NONE'', ''N/A''), s\<lparr>positions := [] @ map (refresh cp) (positions s)\<rparr>)
     | kp # rest \<Rightarrow>
         Inr (close_position cfg e
                (s\<lparr>positions := []
                      @ map (refresh cp) (takeWhile (\<lambda>kp. due cfg e cp kp = None) (positions s))
                      @ refresh cp kp # rest\<rparr>)
                (fst kp) (price_or_entry cp (fst kp) (snd kp)) (the (due cfg e cp kp))))"
    by (rule manage_loop_scan) (simp_all add: assms)
  finally show ?thesis unfolding append_Nil .
qed



section \<open>Position limits are preserved by every method\<close>

lemma update_fresh: "k \<notin> fst ` set ps \<Longrightarrow> AList.update k v ps = ps @ [(k, v)]"
  by (induction ps) auto

lemma execute_trade_rejected:
  assumes "signal \<notin> {''BUY'', ''SELL''} \<or> MAX_POSITIONS cfg \<le> int (length (positions s))
         \<or> symb \<in> fst ` set (positions s) \<or> cash s * RISK_PER_TRADE cfg < 10"
  shows "execute_trade cfg e s symb signal price delta = Inr (False, s)"
  using assms by (auto simp: execute_trade_def Let_def)

lemma execute_trade_zero_price:
  assumes "signal \<in> {''BUY'', ''SELL''}" and "int (length (positions s)) < MAX_POSITIONS cfg"
    and "symb \<notin> fst ` set (positions s)" and "10 \<le> cash s * RISK_PER_TRADE cfg"
  shows "execute_trade cfg e s symb signal 0 delta = Inl ZeroDivisionError"
  using assms by (auto simp: execute_trade_def Let_def)

lemma execute_trade_opened:
  assumes "signal \<in> {''BUY'', ''SELL''}" and "int (length (positions s)) < MAX_POSITIONS cfg"
    and "symb \<notin> fst ` set (positions s)" and "10 \<le> cash s * RISK_PER_TRADE cfg"
    and "price \<noteq> 0"
  shows "\<exists>ok s'. execute_trade cfg e s symb signal price delta = Inr (ok, s')
      \<and> cash s' = cash s - cash s * RISK_PER_TRADE cfg
      \<and> positions s' = positions s @
           [(symb, \<lparr> entry_price = price,
                     quantity = (cash s * RISK_PER_TRADE cfg
                                 - cash s * RISK_PER_TRADE cfg * FEE_PCT cfg) / price,
                     timestamp = now e, peak_price = price, side = signal,
                     trade_value = cash s * RISK_PER_TRADE cfg
                                   - cash s * RISK_PER_TRADE cfg * FEE_PCT cfg \<rparr>)]"
proof -
  let ?pos = "\<lparr> entry_price = price,
                     quantity = (cash s * RISK_PER_TRADE cfg
                                 - cash s * RISK_PER_TRADE cfg * FEE_PCT cfg) / price,
                     timestamp = now e, peak_price = price, side = signal,
                     trade_value = cash s * RISK_PER_TRADE cfg
                                   - cash s * RISK_PER_TRADE cfg * FEE_PCT cfg \<rparr>"
  let ?s3 = "s\<lparr>positions := AList.update symb ?pos (positions s),
               cash := cash s - cash s * RISK_PER_TRADE cfg, last_activity := now e\<rparr>"
  have "\<exists>row. execute_trade cfg e s symb signal price delta =
      Inr (log_to_csv cfg e (snd (calculate_equity ?s3 [(symb, price)])) row)"
    using assms by (auto simp: execute_trade_def Let_def split_beta)
  then obtain row where x: "execute_trade cfg e s symb signal price delta =
      Inr (log_to_csv cfg e (snd (calculate_equity ?s3 [(symb, price)])) row)" by blast
  let ?r = "log_to_csv cfg e (snd (calculate_equity ?s3 [(symb, price)])) row"
  have "execute_trade cfg e s symb signal price delta = Inr (fst ?r, snd ?r)"
    using x by simp
  moreover have "cash (snd ?r) = cash s - cash s * RISK_PER_TRADE cfg"
    by (simp add: log_to_csv_frame calculate_equity_frame)
  moreover have "positions (snd ?r) = positions s @ [(symb, ?pos)]"
    by (simp add: log_to_csv_frame calculate_equity_frame update_fresh [OF assms(3)])
  ultimately show ?thesis by blast
qed

lemma within_limits_positions:
  "positions s' = positions s \<Longrightarrow> within_limits cfg s \<Longrightarrow> within_limits cfg s'"
  by (simp add: within_limits_def)

lemma execute_trade_limits:
  assumes "within_limits cfg s" and "execute_trade cfg e s symb signal price delta = Inr (ok, s')"
  shows "within_limits cfg s'"
proof (cases "signal \<notin> {''BUY'', ''SELL''} \<or> MAX_POSITIONS cfg \<le> int (length (positions s))
         \<or> symb \<in> fst ` set (positions s) \<or> cash s * RISK_PER_TRADE cfg < 10")
  case True
  from execute_trade_rejected [OF True] assms(2) have "s' = s" by simp
  with assms(1) show ?thesis by simp
next
  case False
  then have g: "signal \<in> {''BUY'', ''SELL''}" "int (length (positions s)) < MAX_POSITIONS cfg"
    "symb \<notin> fst ` set (positions s)" "10 \<le> cash s * RISK_PER_TRADE cfg"
    by auto
  have p: "price \<noteq> 0"
    using execute_trade_zero_price [OF g] assms(2) by auto
  from execute_trade_opened [OF g p, of e delta] assms(2)
  obtain pos where "positions s' = positions s @ [(symb, pos)]"
    by auto
  with assms(1) g show ?thesis
    by (auto simp: within_limits_def)
qed

lemma close_position_limits:
  assumes "within_limits cfg s"
  shows "within_limits cfg (snd (close_position cfg e s symb price reason))"
proof (cases "map_of (positions s) symb")
  case None
  then show ?thesis using assms by (simp add: close_position_def)
next
  case (Some pos)
  have "length (AList.delete symb (positions s)) \<le> length (positions s)"
    by (rule length_delete_le)
  with assms show ?thesis
    by (simp add: within_limits_def close_position_open(3) [OF Some] distinct_delete)
qed

lemma manage_positions_limits:
  assumes "within_limits cfg s"
  shows "\<exists>r s'. manage_positions cfg e s cp = Inr (r, s') \<and> within_limits cfg s'"
proof -
  from assms have d: "distinct (map fst (positions s))"
    by (simp add: within_limits_def)
  show ?thesis
  proof (cases "dropWhile (\<lambda>kp. due cfg e cp kp = None) (positions s)")
    case Nil
    have "manage_positions cfg e s cp =
        Inr ((0, ''NONE'', ''N/A''), s\<lparr>positions := map (refresh cp) (positions s)\<rparr>)"
      using manage_positions_scan [OF d, of cfg e cp] by (simp add: Nil)
    moreover have "within_limits cfg (s\<lparr>positions := map (refresh cp) (positions s)\<rparr>)"
      using assms by (simp add: within_limits_def comp_def)
    ultimately show ?thesis by blast
  next
    case hit: (Cons kp rest)
    let ?pre = "takeWhile (\<lambda>kp. due cfg e cp kp = None) (positions s)"
    let ?s1 = "s\<lparr>positions := map (refresh cp) ?pre @ refresh cp kp # rest\<rparr>"
    let ?c = "close_position cfg e ?s1 (fst kp) (price_or_entry cp (fst kp) (snd kp))
                (the (due cfg e cp kp))"
    have split: "positions s = ?pre @ kp # rest"
      using hit by (metis takeWhile_dropWhile_id)
    have keys: "map fst (positions ?s1) = map fst (positions s)"
      by (subst (2) split) (simp add: comp_def)
    have "length (positions ?s1) = length (positions s)"
      using keys by (metis length_map)
    with keys assms have "within_limits cfg ?s1"
      by (simp only: within_limits_def)
    then have "within_limits cfg (snd ?c)"
      by (rule close_position_limits)
    moreover have "manage_positions cfg e s cp = Inr (fst ?c, snd ?c)"
      using manage_positions_scan [OF d, of cfg e cp] by (simp add: hit)
    ultimately show ?thesis by blast
  qed
qed

lemma trade_on_strong_signal_limits:
  assumes "within_limits cfg s"
    and "trade_on_strong_signal cfg e s symb signal price delta = Inr s'"
  shows "within_limits cfg s'"
proof (cases "signal \<in> set [''BUY'', ''SELL''] \<and> 15 / 10 < \<bar>delta\<bar>")
  case True
  show ?thesis
  proof (cases "execute_trade cfg e s symb signal price delta")
    case (Inl err)
    with True assms(2) show ?thesis
      by (simp add: trade_on_strong_signal_def)
  next
    case (Inr r)
    with True assms(2) have "execute_trade cfg e s symb signal price delta = Inr (fst r, s')"
      by (cases r) (simp add: trade_on_strong_signal_def)
    with assms(1) show ?thesis
      by (rule execute_trade_limits)
  qed
next
  case False
  with assms(2) have "s' = s"
    by (auto simp: trade_on_strong_signal_def)
  with assms(1) show ?thesis by simp
qed

lemma positions_log_scan:
  "positions (log_scan cfg e s3 symb price bue delta sg ve managed) = positions s3"
  by (simp add: log_scan_def Let_def split_beta log_to_csv_frame calculate_equity_frame)

lemma process_symbol_limits:
  assumes "within_limits cfg s" and "process_symbol cfg e s symb price = Inr s'"
  shows "within_limits cfg s'"
proof (cases "price \<le> 0")
  case True
  with assms show ?thesis by (simp add: process_symbol_def)
next
  case False
  let ?s1 = "push_price s symb price"
  let ?bue = "fst (calculate_bue_value e s symb price)"
  let ?sig = "fst (generate_signal price ?bue)"
  let ?delta = "snd (generate_signal price ?bue)"
  let ?ve = "cash ?s1 / of_nat (length (prices ?s1)) * (1 + ?delta / 100)"
  let ?t = "trade_on_strong_signal cfg e ?s1 symb ?sig price ?delta"
  have unfold: "process_symbol cfg e s symb price =
      (if length (prices ?s1) = 0 then Inl ZeroDivisionError
       else case ?t of
              Inl err \<Rightarrow> Inl err
            | Inr s2 \<Rightarrow>
                (case manage_positions cfg e s2 (prices s2) of
                   Inl err \<Rightarrow> Inl err
                 | Inr (managed, s3) \<Rightarrow>
                     Inr (log_scan cfg e s3 symb price ?bue ?delta ?sig ?ve managed)))"
    using False
    unfolding process_symbol_def Let_def split_beta calculate_bue_value_state
    by (simp only: if_False)
  have w1: "within_limits cfg ?s1"
    using assms(1) by (simp add: within_limits_def push_price_def Let_def)
  show ?thesis
  proof (cases ?t)
    case (Inl err)
    with assms(2) show ?thesis
      unfolding unfold by (simp split: if_splits)
  next
    case (Inr s2)
    have w2: "within_limits cfg s2"
      using w1 Inr by (rule trade_on_strong_signal_limits)
    from manage_positions_limits [OF w2, of e "prices s2"] obtain r s3 where
      m: "manage_positions cfg e s2 (prices s2) = Inr (r, s3)" and w3: "within_limits cfg s3"
      by blast
    from assms(2) have "s' = log_scan cfg e s3 symb price ?bue ?delta ?sig ?ve r"
      unfolding unfold Inr by (simp add: m split: if_splits)
    then have "positions s' = positions s3"
      by (simp add: positions_log_scan)
    then show ?thesis
      using w3 by (rule within_limits_positions)
  qed
qed

lemma symbols_loop_limits:
  "within_limits cfg s \<Longrightarrow> symbols_loop cfg ev i items s = Inr s' \<Longrightarrow> within_limits cfg s'"
proof (induction items arbitrary: i s)
  case Nil
  then show ?case by simp
next
  case (Cons item items)
  obtain symb price where item: "item = (symb, price)" by (cases item)
  from Cons.prems(2) obtain s1 where
    p: "process_symbol cfg (ev i) s symb price = Inr s1"
    and l: "symbols_loop cfg ev (Suc i) items s1 = Inr s'"
    by (auto simp: item split: sum.splits)
  from Cons.prems(1) p have "within_limits cfg s1"
    by (rule process_symbol_limits)
  then show ?case using l by (rule Cons.IH)
qed

lemma run_cycle_limits:
  assumes "within_limits cfg s" and "run_cycle cfg ev fetched s = Inr s'"
  shows "within_limits cfg s'"
proof -
  let ?s1 = "s\<lparr>total_api_calls := total_api_calls s + 1, prices := fetched\<rparr>"
  have w: "within_limits cfg ?s1"
    using assms(1) by (simp add: within_limits_def)
  show ?thesis
  proof (cases "fetched = []")
    case True
    with assms(2) w show ?thesis by (simp add: run_cycle_def)
  next
    case False
    with assms(2) have "symbols_loop cfg ev 0 fetched ?s1 = Inr s'"
      by (simp add: run_cycle_def)
    with w show ?thesis by (rule symbols_loop_limits)
  qed
qed

lemma positions_deposit_funds:
  "positions (snd (deposit_funds cfg e s amount)) = positions s"
  by (simp add: deposit_funds_def Let_def log_to_csv_frame)

lemma positions_calculate_bue_value:
  "positions (snd (calculate_bue_value e s symb price)) = positions s"
  by (simp add: calculate_bue_value_state push_price_def Let_def)

lemma perform_limits:
  assumes "within_limits cfg s" and "perform cfg s c = Inr s'"
  shows "within_limits cfg s'"
proof (cases c)
  case (Deposit e amount)
  with assms(2) have "s' = snd (deposit_funds cfg e s amount)" by simp
  then have "positions s' = positions s" by (simp add: positions_deposit_funds)
  then show ?thesis using assms(1) by (rule within_limits_positions)
next
  case (Bue e symb price)
  with assms(2) have "s' = snd (calculate_bue_value e s symb price)" by simp
  then have "positions s' = positions s" by (simp add: positions_calculate_bue_value)
  then show ?thesis using assms(1) by (rule within_limits_positions)
next
  case (Log e row_data)
  with assms(2) have "s' = snd (log_to_csv cfg e s row_data)" by simp
  then have "positions s' = positions s" by (simp add: log_to_csv_frame)
  then show ?thesis using assms(1) by (rule within_limits_positions)
next
  case (Equity current_prices)
  with assms(2) have "s' = snd (calculate_equity s current_prices)" by simp
  then have "positions s' = positions s" by (simp add: calculate_equity_frame)
  then show ?thesis using assms(1) by (rule within_limits_positions)
next
  case (Trade e symb signal price delta)
  show ?thesis
  proof (cases "execute_trade cfg e s symb signal price delta")
    case (Inl err)
    with assms(2) Trade show ?thesis by simp
  next
    case (Inr r)
    with assms(2) Trade have "snd r = s'" by simp
    then have "r = (fst r, s')" by (cases r) simp
    with Inr have "execute_trade cfg e s symb signal price delta = Inr (fst r, s')" by simp
    with assms(1) show ?thesis by (rule execute_trade_limits)
  qed
next
  case (Close e symb price reason)
  with assms(2) have "s' = snd (close_position cfg e s symb price reason)" by simp
  with assms(1) show ?thesis by (simp add: close_position_limits)
next
  case (Manage e current_prices)
  from manage_positions_limits [OF assms(1), of e current_prices] obtain r s3 where
    "manage_positions cfg e s current_prices = Inr (r, s3)" and w: "within_limits cfg s3"
    by blast
  with assms(2) Manage have "s' = s3" by simp
  with w show ?thesis by simp
next
  case (Cycle ev fetched)
  with assms(2) have "run_cycle cfg ev fetched s = Inr s'" by simp
  with assms(1) show ?thesis by (rule run_cycle_limits)
qed

lemma run_limits:
  "within_limits cfg s \<Longrightarrow> run cfg s calls = Inr s' \<Longrightarrow> within_limits cfg s'"
proof (induction calls arbitrary: s)
  case Nil
  then show ?case by simp
next
  case (Cons c calls)
  from Cons.prems(2) obtain s1 where p: "perform cfg s c = Inr s1" and r: "run cfg s1 calls = Inr s'"
    by (auto split: sum.splits)
  from Cons.prems(1) p have "within_limits cfg s1" by (rule perform_limits)
  then show ?case using r by (rule Cons.IH)
qed







section \<open>Exit evaluation: one closure per call\<close>



section \<open>Opening a position; the reachable states\<close>

lemma within_limits_init:
  "0 \<le> MAX_POSITIONS cfg \<Longrightarrow> within_limits cfg (init cfg e disk)"
  by (simp add: within_limits_def init_def)

lemma map_of_snoc_fresh:
  "k \<notin> fst ` set ps \<Longrightarrow> map_of (ps @ [(k, v)]) k = Some v"
  by (induction ps) auto

lemma execute_trade_new_position:
  assumes x: "execute_trade cfg e s symb signal price delta = Inr (ok, s')"
    and before: "map_of (positions s) symb = None"
    and after: "map_of (positions s') symb = Some pos"
  shows "cash s' = cash s - cash s * RISK_PER_TRADE cfg"
    and "cash s' < cash s"
    and "quantity pos = cash s * RISK_PER_TRADE cfg * (1 - FEE_PCT cfg) / price"
proof -
  have g: "signal \<in> {''BUY'', ''SELL''}" "int (length (positions s)) < MAX_POSITIONS cfg"
    "symb \<notin> fst ` set (positions s)" "10 \<le> cash s * RISK_PER_TRADE cfg"
  proof -
    have "\<not> (signal \<notin> {''BUY'', ''SELL''} \<or> MAX_POSITIONS cfg \<le> int (length (positions s))
         \<or> symb \<in> fst ` set (positions s) \<or> cash s * RISK_PER_TRADE cfg < 10)"
    proof
      assume r: "signal \<notin> {''BUY'', ''SELL''} \<or> MAX_POSITIONS cfg \<le> int (length (positions s))
         \<or> symb \<in> fst ` set (positions s) \<or> cash s * RISK_PER_TRADE cfg < 10"
      from execute_trade_rejected [OF r] x have "s' = s" by simp
      with before after show False by simp
    qed
    then show "signal \<in> {''BUY'', ''SELL''}" "int (length (positions s)) < MAX_POSITIONS cfg"
      "symb \<notin> fst ` set (positions s)" "10 \<le> cash s * RISK_PER_TRADE cfg"
      by auto
  qed
  have p: "price \<noteq> 0"
    using execute_trade_zero_price [OF g] x by auto
  let ?pos = "\<lparr> entry_price = price,
                     quantity = (cash s * RISK_PER_TRADE cfg
                                 - cash s * RISK_PER_TRADE cfg * FEE_PCT cfg) / price,
                     timestamp = now e, peak_price = price, side = signal,
                     trade_value = cash s * RISK_PER_TRADE cfg
                                   - cash s * RISK_PER_TRADE cfg * FEE_PCT cfg \<rparr>"
  from execute_trade_opened [OF g p, of e delta] x
  have c: "cash s' = cash s - cash s * RISK_PER_TRADE cfg"
    and ps: "positions s' = positions s @ [(symb, ?pos)]"
    by auto
  have "map_of (positions s') symb = Some ?pos"
    unfolding ps by (rule map_of_snoc_fresh [OF g(3)])
  with after have "pos = ?pos"
    by simp
  then have "quantity pos = (cash s * RISK_PER_TRADE cfg
                                 - cash s * RISK_PER_TRADE cfg * FEE_PCT cfg) / price"
    by simp
  then show "quantity pos = cash s * RISK_PER_TRADE cfg * (1 - FEE_PCT cfg) / price"
    by (simp add: algebra_simps)
  show "cash s' = cash s - cash s * RISK_PER_TRADE cfg" by (rule c)
  show "cash s' < cash s" using c g(4) by simp
qed

text \<open>
  Claim C6. An opening is successful when \<open>execute_trade\<close> returns and the symbol,
  which had no open position before, has one after. Every such opening leaves the cash at
  the old cash minus the full notional cash * RISK_PER_TRADE, which is strictly less than
  the old cash, and the new position has quantity notional * (1 - FEE_PCT) / price.
  In every state reached from the initial state by any sequence of method calls, with a
  maximum that is not negative, no symbol has two open positions and the number of open
  positions is at most MAX_POSITIONS.
\<close>

theorem opening_debits_notional_and_limits_hold:
  "(execute_trade cfg e s symb signal price delta = Inr (ok, s')
      \<and> map_of (positions s) symb = None \<and> map_of (positions s') symb = Some pos
    \<longrightarrow> cash s' = cash s - cash s * RISK_PER_TRADE cfg
      \<and> cash s' < cash s
      \<and> quantity pos = cash s * RISK_PER_TRADE cfg * (1 - FEE_PCT cfg) / price)
   \<and> (0 \<le> MAX_POSITIONS cfg \<and> run cfg (init cfg e0 disk) calls = Inr t
    \<longrightarrow> distinct (map fst (positions t))
      \<and> int (length (positions t)) \<le> MAX_POSITIONS cfg)"
proof (intro conjI impI)
  assume a: "execute_trade cfg e s symb signal price delta = Inr (ok, s')
      \<and> map_of (positions s) symb = None \<and> map_of (positions s') symb = Some pos"
  then have x: "execute_trade cfg e s symb signal price delta = Inr (ok, s')"
    and b: "map_of (positions s) symb = None" and c: "map_of (positions s') symb = Some pos"
    by simp_all
  show "cash s' = cash s - cash s * RISK_PER_TRADE cfg"
    by (rule execute_trade_new_position(1) [OF x b c])
  show "cash s' < cash s"
    by (rule execute_trade_new_position(2) [OF x b c])
  show "quantity pos = cash s * RISK_PER_TRADE cfg * (1 - FEE_PCT cfg) / price"
    by (rule execute_trade_new_position(3) [OF x b c])
next
  assume a: "0 \<le> MAX_POSITIONS cfg \<and> run cfg (init cfg e0 disk) calls = Inr t"
  then have "within_limits cfg (init cfg e0 disk)"
    by (simp add: within_limits_init)
  with a have w: "within_limits cfg t"
    by (blast intro: run_limits)
  from w show "distinct (map fst (positions t))"
    by (simp add: within_limits_def)
  from w show "int (length (positions t)) \<le> MAX_POSITIONS cfg"
    by (simp add: within_limits_def)
qed

theorem opening_debits_notional_and_limits_hold_witness:
  "map_sum id (cash \<circ> snd)
      (execute_trade default_config calm (init default_config calm None) ''BTC'' ''BUY'' 100 3)
     = Inr 950
   \<and> map_sum id (map (quantity \<circ> snd) \<circ> positions \<circ> snd)
      (execute_trade default_config calm (init default_config calm None) ''BTC'' ''BUY'' 100 3)
     = Inr [4995 / 10000]
   \<and> 0 \<le> MAX_POSITIONS default_config
   \<and> map_sum id (map fst \<circ> positions)
        (run default_config (init default_config calm None) two_trades)
     = Inr [''BTC'']"
proof -
  let ?s0 = "init default_config calm None"
  have g: "''BUY'' \<in> {''BUY'', ''SELL''}"
    "int (length (positions ?s0)) < MAX_POSITIONS default_config"
    "''BTC'' \<notin> fst ` set (positions ?s0)"
    "10 \<le> cash ?s0 * RISK_PER_TRADE default_config"
    "(100::real) \<noteq> 0"
    by (simp_all add: init_def default_config_def)
  from execute_trade_opened [OF g, of calm 3] obtain ok s' where
    x: "execute_trade default_config calm ?s0 ''BTC'' ''BUY'' 100 3 = Inr (ok, s')"
    and ps: "map fst (positions s') = [''BTC'']"
    by (auto simp: init_def)
  from ps obtain pos where ps': "positions s' = [(''BTC'', pos)]"
    by (cases "positions s'") auto
  have b: "map_of (positions ?s0) ''BTC'' = None"
    by (simp add: init_def)
  have a: "map_of (positions s') ''BTC'' = Some pos"
    by (simp add: ps')
  have m: "0 \<le> MAX_POSITIONS default_config"
    by (simp add: default_config_def)
  have again: "execute_trade default_config calm s' ''BTC'' ''SELL'' 100 3 = Inr (False, s')"
    by (simp add: execute_trade_def ps')
  have r: "run default_config ?s0 two_trades = Inr s'"
    by (simp add: two_trades_def x again)
  from opening_debits_notional_and_limits_hold
    [of default_config calm ?s0 "''BTC''" "''BUY''" 100 3 ok s' pos calm None two_trades s']
    x b a m r
  have "cash s' = 950" and "quantity pos = 4995 / 10000"
    and "distinct (map fst (positions s'))"
    by (simp_all add: init_def default_config_def)
  with x r ps' m show ?thesis
    by simp
qed

end
